theory Spec2Isabelle
  imports Main "HOL-Library.Word" "HOL-Library.Sublist" "HOL-Library.Code_Target_Nat"
begin

section \<open>Data model\<close>

text \<open>
  The two Cython modules wrap the C interface of a GSSAPI provider.  Status codes are
  \<^verbatim>\<open>OM_uint32\<close> values, byte strings are lists of 8-bit characters, a \<^verbatim>\<open>gss_name_t\<close>
  is an opaque pointer (its address, with \<^verbatim>\<open>GSS_C_NO_NAME\<close> the null pointer) and a
  \<^verbatim>\<open>gss_OID\<close> is a pointer to an OID descriptor, \<^verbatim>\<open>GSS_C_NO_OID\<close> being null.
\<close>

type_synonym OM_uint32 = "32 word"
type_synonym bytes = string
type_synonym gss_name_t = nat
type_synonym gss_OID_desc = "nat list"
type_synonym gss_OID = "gss_OID_desc option"

definition GSS_S_COMPLETE :: OM_uint32 where
  "GSS_S_COMPLETE = 0"

definition GSS_C_GSS_CODE :: int where
  "GSS_C_GSS_CODE = 1"

definition GSS_C_MECH_CODE :: int where
  "GSS_C_MECH_CODE = 2"

definition GSS_C_NO_NAME :: gss_name_t where
  "GSS_C_NO_NAME = 0"

definition GSS_C_NO_OID :: gss_OID where
  "GSS_C_NO_OID = None"

text \<open>The Python classes \<^verbatim>\<open>OID\<close> and \<^verbatim>\<open>Name\<close> hold one C field each.\<close>

record OID =
  raw_oid :: gss_OID_desc

record Name =
  raw_name :: gss_name_t

text \<open>
  \<^verbatim>\<open>GSSError\<close> stores the two codes; the message handed to \<^verbatim>\<open>Exception.__init__\<close>
  is the third field.
\<close>

record GSSError =
  maj_code :: OM_uint32
  min_code :: OM_uint32
  message :: string

text \<open>\<^verbatim>\<open>DisplayNameResult\<close> is the named tuple returned by \<^verbatim>\<open>display_name\<close>.\<close>

record DisplayNameResult =
  name :: bytes
  name_type :: "OID option"

subsection \<open>The provider\<close>

text \<open>
  The C functions of the provider are external.  Each one is a parameter: it reads its
  arguments and the provider's own state \<open>'p\<close>, and returns the major status, what it
  wrote through its output pointers (the minor status first) and the new provider state.
  \<^verbatim>\<open>gss_display_name\<close> receives, instead of the pointer \<^verbatim>\<open>output_name_type_ptr\<close>,
  whether that pointer is non-null.  \<^verbatim>\<open>gss_release_name\<close> returns the value it leaves in
  \<^verbatim>\<open>*name\<close>.  The result of \<^verbatim>\<open>gss_release_buffer\<close> is ignored by every caller.
  \<open>py_repr\<close> is how the host Python renders one byte string inside \<^verbatim>\<open>str\<close> of a list.
\<close>

record 'p provider =
  gss_display_status ::
    "OM_uint32 \<Rightarrow> int \<Rightarrow> gss_OID \<Rightarrow> OM_uint32 \<Rightarrow> 'p \<Rightarrow> (OM_uint32 \<times> OM_uint32 \<times> OM_uint32 \<times> bytes) \<times> 'p"
  gss_release_buffer :: "bytes \<Rightarrow> 'p \<Rightarrow> 'p"
  gss_display_name ::
    "gss_name_t \<Rightarrow> bool \<Rightarrow> 'p \<Rightarrow> (OM_uint32 \<times> OM_uint32 \<times> bytes \<times> gss_OID) \<times> 'p"
  gss_compare_name ::
    "gss_name_t \<Rightarrow> gss_name_t \<Rightarrow> 'p \<Rightarrow> (OM_uint32 \<times> OM_uint32 \<times> int) \<times> 'p"
  gss_release_name :: "gss_name_t \<Rightarrow> 'p \<Rightarrow> (OM_uint32 \<times> OM_uint32 \<times> gss_name_t) \<times> 'p"
  py_repr :: "bytes \<Rightarrow> string"

text \<open>
  The world a call runs in: the provider's state and the sequence of provider calls
  made so far, in order, with their input arguments.
\<close>

datatype provider_call =
    Call_display_status OM_uint32 int gss_OID OM_uint32
  | Call_release_buffer bytes
  | Call_display_name gss_name_t bool
  | Call_compare_name gss_name_t gss_name_t
  | Call_release_name gss_name_t

record 'p world =
  pstate :: 'p
  trace :: "provider_call list"

definition call_gss_display_status ::
  "'p provider \<Rightarrow> OM_uint32 \<Rightarrow> int \<Rightarrow> gss_OID \<Rightarrow> OM_uint32 \<Rightarrow> 'p world
    \<Rightarrow> (OM_uint32 \<times> OM_uint32 \<times> OM_uint32 \<times> bytes) \<times> 'p world" where
  "call_gss_display_status env status_value status_type mech ctx w =
     (let (r, p) = gss_display_status env status_value status_type mech ctx (pstate w)
      in (r, \<lparr>pstate = p, trace = trace w @ [Call_display_status status_value status_type mech ctx]\<rparr>))"

definition call_gss_release_buffer :: "'p provider \<Rightarrow> bytes \<Rightarrow> 'p world \<Rightarrow> 'p world" where
  "call_gss_release_buffer env buf w =
     \<lparr>pstate = gss_release_buffer env buf (pstate w), trace = trace w @ [Call_release_buffer buf]\<rparr>"

definition call_gss_display_name ::
  "'p provider \<Rightarrow> gss_name_t \<Rightarrow> bool \<Rightarrow> 'p world
    \<Rightarrow> (OM_uint32 \<times> OM_uint32 \<times> bytes \<times> gss_OID) \<times> 'p world" where
  "call_gss_display_name env nm want_type w =
     (let (r, p) = gss_display_name env nm want_type (pstate w)
      in (r, \<lparr>pstate = p, trace = trace w @ [Call_display_name nm want_type]\<rparr>))"

definition call_gss_compare_name ::
  "'p provider \<Rightarrow> gss_name_t \<Rightarrow> gss_name_t \<Rightarrow> 'p world
    \<Rightarrow> (OM_uint32 \<times> OM_uint32 \<times> int) \<times> 'p world" where
  "call_gss_compare_name env nm1 nm2 w =
     (let (r, p) = gss_compare_name env nm1 nm2 (pstate w)
      in (r, \<lparr>pstate = p, trace = trace w @ [Call_compare_name nm1 nm2]\<rparr>))"

definition call_gss_release_name ::
  "'p provider \<Rightarrow> gss_name_t \<Rightarrow> 'p world
    \<Rightarrow> (OM_uint32 \<times> OM_uint32 \<times> gss_name_t) \<times> 'p world" where
  "call_gss_release_name env nm w =
     (let (r, p) = gss_release_name env nm (pstate w)
      in (r, \<lparr>pstate = p, trace = trace w @ [Call_release_name nm]\<rparr>))"

section \<open>Status decoding and error reports (gssapi/raw/misc.pyx)\<close>

subsection \<open>Formatting\<close>

text \<open>Decimal rendering of a non-negative Python integer, as \<^verbatim>\<open>'{0}'.format\<close> gives it.\<close>

definition digit_char :: "nat \<Rightarrow> char" where
  "digit_char d = char_of (48 + d)"

function str_nat :: "nat \<Rightarrow> string" where
  "str_nat n = (if n < 10 then [digit_char n] else str_nat (n div 10) @ [digit_char (n mod 10)])"
  by pat_completeness auto
termination
  by (relation "measure id") auto

declare str_nat.simps [simp del]

text \<open>\<^verbatim>\<open>', '.join\<close> and \<^verbatim>\<open>str\<close> of a list of byte strings.\<close>

fun join_comma :: "string list \<Rightarrow> string" where
  "join_comma [] = []"
| "join_comma [x] = x"
| "join_comma (x # y # ys) = x @ '', '' @ join_comma (y # ys)"

definition str_list :: "'p provider \<Rightarrow> bytes list \<Rightarrow> string" where
  "str_list env xs = ''['' @ join_comma (map (py_repr env) xs) @ '']''"

text \<open>\<^verbatim>\<open>'issue decoding code: {0}'.format(code).encode('utf-8')\<close>\<close>

definition issue_decoding :: "OM_uint32 \<Rightarrow> bytes" where
  "issue_decoding code = ''issue decoding code: '' @ str_nat (unat code)"

text \<open>\<^verbatim>\<open>"Major ({maj_stat}): {maj_str}, Minor ({min_stat}): {min_str}".format(...)\<close>\<close>

definition format_message ::
  "'p provider \<Rightarrow> OM_uint32 \<Rightarrow> bytes list \<Rightarrow> OM_uint32 \<Rightarrow> bytes list \<Rightarrow> string" where
  "format_message env maj_stat maj_str min_stat min_str =
     ''Major ('' @ str_nat (unat maj_stat) @ ''): '' @ str_list env maj_str
       @ '', Minor ('' @ str_nat (unat min_stat) @ ''): '' @ str_list env min_str"

subsection \<open>\<^verbatim>\<open>display_status\<close> and \<^verbatim>\<open>GSSError\<close>\<close>

text \<open>
  \<^verbatim>\<open>display_status\<close> raises \<^verbatim>\<open>GSSError(maj_stat, min_stat)\<close> on failure; building that
  exception runs \<^verbatim>\<open>GSSError.__init__\<close>, hence \<^verbatim>\<open>gen_message\<close>, hence
  \<^verbatim>\<open>get_all_statuses\<close>, which calls \<^verbatim>\<open>display_status\<close> again.  The five functions
  are therefore mutually recursive, and neither the recursion nor the \<^verbatim>\<open>while cont\<close>
  loop is bounded by the code.  The first argument is a budget: every call and every
  loop iteration spends one unit, and \<open>None\<close> means the budget ran out before the
  function returned.  A raised \<^verbatim>\<open>GSSError\<close> is the \<open>Inl\<close> branch of the result.
  \<open>get_all_statuses_loop\<close> is the \<^verbatim>\<open>while cont\<close> loop, with the local variables
  \<^verbatim>\<open>res\<close>, \<^verbatim>\<open>ctx\<close> and \<^verbatim>\<open>cont\<close> as arguments.  When the first \<^verbatim>\<open>display_status\<close>
  raises, \<^verbatim>\<open>ctx\<close> is unbound in the source and \<^verbatim>\<open>cont\<close> is false: the loop is entered
  with \<open>0\<close> for \<^verbatim>\<open>ctx\<close>, which it does not read.
\<close>

function (sequential) display_status ::
    "nat \<Rightarrow> 'p provider \<Rightarrow> OM_uint32 \<Rightarrow> bool \<Rightarrow> OID option \<Rightarrow> OM_uint32 \<Rightarrow> 'p world
      \<Rightarrow> ((GSSError + bytes \<times> OM_uint32 \<times> bool) \<times> 'p world) option"
  and GSSError_init ::
    "nat \<Rightarrow> 'p provider \<Rightarrow> OM_uint32 \<Rightarrow> OM_uint32 \<Rightarrow> 'p world \<Rightarrow> (GSSError \<times> 'p world) option"
  and get_all_statuses ::
    "nat \<Rightarrow> 'p provider \<Rightarrow> OM_uint32 \<Rightarrow> bool \<Rightarrow> 'p world \<Rightarrow> (bytes list \<times> 'p world) option"
  and get_all_statuses_loop ::
    "nat \<Rightarrow> 'p provider \<Rightarrow> OM_uint32 \<Rightarrow> bool \<Rightarrow> bytes list \<Rightarrow> OM_uint32 \<Rightarrow> bool \<Rightarrow> 'p world
      \<Rightarrow> (bytes list \<times> 'p world) option"
  and gen_message ::
    "nat \<Rightarrow> 'p provider \<Rightarrow> OM_uint32 \<Rightarrow> OM_uint32 \<Rightarrow> 'p world \<Rightarrow> (string \<times> 'p world) option"
where
  "display_status 0 env error_code is_major_code mech_type message_context w = None"
| "display_status (Suc fuel) env error_code is_major_code mech_type message_context w =
     (let status_type = (if is_major_code then GSS_C_GSS_CODE else GSS_C_MECH_CODE);
          c_mech_type = (case mech_type of None \<Rightarrow> GSS_C_NO_OID | Some m \<Rightarrow> Some (raw_oid m));
          ((maj_stat, min_stat, msg_ctx_out, msg_buff), w1) =
             call_gss_display_status env error_code status_type c_mech_type message_context w
      in if maj_stat = GSS_S_COMPLETE then
           (let call_again = (msg_ctx_out \<noteq> 0);
                msg_out = msg_buff;
                w2 = call_gss_release_buffer env msg_buff w1
            in Some (Inr (msg_out, msg_ctx_out, call_again), w2))
         else
           (case GSSError_init fuel env maj_stat min_stat w1 of
              None \<Rightarrow> None
            | Some (e, w2) \<Rightarrow> Some (Inl e, w2)))"
| "GSSError_init 0 env maj_c min_c w = None"
| "GSSError_init (Suc fuel) env maj_c min_c w =
     (case gen_message fuel env maj_c min_c w of
        None \<Rightarrow> None
      | Some (m, w1) \<Rightarrow> Some (\<lparr>maj_code = maj_c, min_code = min_c, message = m\<rparr>, w1))"
| "get_all_statuses 0 env code is_maj w = None"
| "get_all_statuses (Suc fuel) env code is_maj w =
     (case display_status fuel env code is_maj None 0 w of
        None \<Rightarrow> None
      | Some (Inr (msg, ctx, cont), w1) \<Rightarrow>
          get_all_statuses_loop fuel env code is_maj [msg] ctx cont w1
      | Some (Inl e, w1) \<Rightarrow>
          get_all_statuses_loop fuel env code is_maj [issue_decoding code] 0 False w1)"
| "get_all_statuses_loop 0 env code is_maj res ctx cont w = None"
| "get_all_statuses_loop (Suc fuel) env code is_maj res ctx cont w =
     (if cont then
        (case display_status fuel env code is_maj None ctx w of
           None \<Rightarrow> None
         | Some (Inr (msg, ctx', cont'), w1) \<Rightarrow>
             get_all_statuses_loop fuel env code is_maj (res @ [msg]) ctx' cont' w1
         | Some (Inl e, w1) \<Rightarrow>
             get_all_statuses_loop fuel env code is_maj (res @ [issue_decoding code]) ctx False w1)
      else Some (res, w))"
| "gen_message 0 env maj_c min_c w = None"
| "gen_message (Suc fuel) env maj_c min_c w =
     (case get_all_statuses fuel env maj_c True w of
        None \<Rightarrow> None
      | Some (maj_statuses, w1) \<Rightarrow>
          (case get_all_statuses fuel env min_c False w1 of
             None \<Rightarrow> None
           | Some (min_statuses, w2) \<Rightarrow>
               Some (format_message env maj_c maj_statuses min_c min_statuses, w2)))"
  by pat_completeness auto
termination
  by (relation "measure (case_sum (case_sum fst fst) (case_sum fst (case_sum fst fst)))") auto

section \<open>Names (the names module)\<close>

definition NULL :: gss_name_t where
  "NULL = 0"

text \<open>
  \<^verbatim>\<open>Name.__cinit__(self, Name cpy=None)\<close> returns the new object and the argument
  as the constructor leaves it.  It makes no provider call.
\<close>

definition Name_cinit :: "Name option \<Rightarrow> Name \<times> Name option" where
  "Name_cinit cpy =
     (case cpy of
        Some c \<Rightarrow> (\<lparr>raw_name = raw_name c\<rparr>, Some (c\<lparr>raw_name := GSS_C_NO_NAME\<rparr>))
      | None \<Rightarrow> (\<lparr>raw_name = GSS_C_NO_NAME\<rparr>, None))"

text \<open>
  \<^verbatim>\<open>Name.__dealloc__\<close> and \<^verbatim>\<open>release_name\<close> pass \<^verbatim>\<open>&raw_name\<close> to the provider,
  which may overwrite the field; the result carries the object as it is left, also
  when \<^verbatim>\<open>GSSError\<close> is raised.  The exception is built (by \<open>GSSError_init\<close>) before
  it is raised.
\<close>

definition Name_dealloc ::
  "nat \<Rightarrow> 'p provider \<Rightarrow> Name \<Rightarrow> 'p world \<Rightarrow> ((GSSError + unit) \<times> Name \<times> 'p world) option" where
  "Name_dealloc fuel env self w =
     (if raw_name self \<noteq> GSS_C_NO_NAME then
        (let ((maj_stat, min_stat, nm), w1) = call_gss_release_name env (raw_name self) w;
             self1 = self\<lparr>raw_name := nm\<rparr>
         in if maj_stat \<noteq> GSS_S_COMPLETE then
              (case GSSError_init fuel env maj_stat min_stat w1 of
                 None \<Rightarrow> None
               | Some (e, w2) \<Rightarrow> Some (Inl e, self1, w2))
            else Some (Inr (), self1\<lparr>raw_name := NULL\<rparr>, w1))
      else Some (Inr (), self, w))"

definition release_name ::
  "nat \<Rightarrow> 'p provider \<Rightarrow> Name \<Rightarrow> 'p world \<Rightarrow> ((GSSError + unit) \<times> Name \<times> 'p world) option" where
  "release_name fuel env nm_obj w =
     (let ((maj_stat, min_stat, nm), w1) = call_gss_release_name env (raw_name nm_obj) w;
          nm_obj1 = nm_obj\<lparr>raw_name := nm\<rparr>
      in if maj_stat \<noteq> GSS_S_COMPLETE then
           (case GSSError_init fuel env maj_stat min_stat w1 of
              None \<Rightarrow> None
            | Some (e, w2) \<Rightarrow> Some (Inl e, nm_obj1, w2))
         else Some (Inr (), nm_obj1\<lparr>raw_name := NULL\<rparr>, w1))"

text \<open>\<^verbatim>\<open>display_name(Name name not None, name_type=True)\<close>\<close>

definition display_name ::
  "nat \<Rightarrow> 'p provider \<Rightarrow> Name \<Rightarrow> bool \<Rightarrow> 'p world
    \<Rightarrow> ((GSSError + DisplayNameResult) \<times> 'p world) option" where
  "display_name fuel env nm_obj want_type w =
     (let ((maj_stat, min_stat, output_buffer, output_name_type), w1) =
             call_gss_display_name env (raw_name nm_obj) want_type w
      in if maj_stat = GSS_S_COMPLETE then
           (let text = output_buffer;
                w2 = call_gss_release_buffer env output_buffer w1;
                py_name_type =
                  (if want_type then
                     (case output_name_type of
                        None \<Rightarrow> None
                      | Some d \<Rightarrow> Some \<lparr>raw_oid = d\<rparr>)
                   else None)
            in Some (Inr \<lparr>name = text, name_type = py_name_type\<rparr>, w2))
         else
           (case GSSError_init fuel env maj_stat min_stat w1 of
              None \<Rightarrow> None
            | Some (e, w2) \<Rightarrow> Some (Inl e, w2)))"

text \<open>\<^verbatim>\<open>compare_name(Name name1=None, Name name2=None)\<close>\<close>

definition compare_name ::
  "nat \<Rightarrow> 'p provider \<Rightarrow> Name option \<Rightarrow> Name option \<Rightarrow> 'p world
    \<Rightarrow> ((GSSError + bool) \<times> 'p world) option" where
  "compare_name fuel env name1 name2 w =
     (if name1 = None \<and> name2 = None then Some (Inr True, w)
      else if name1 = None \<or> name2 = None then Some (Inr False, w)
      else
        (let ((maj_stat, min_stat, is_equal), w1) =
                call_gss_compare_name env (raw_name (the name1)) (raw_name (the name2)) w
         in if maj_stat = GSS_S_COMPLETE then Some (Inr (is_equal \<noteq> 0), w1)
            else
              (case GSSError_init fuel env maj_stat min_stat w1 of
                 None \<Rightarrow> None
               | Some (e, w2) \<Rightarrow> Some (Inl e, w2))))"

section \<open>Example providers and termination predicates\<close>

text \<open>
  Concrete providers, used to run the model.  Their \<open>py_repr\<close> is Python 3's \<^verbatim>\<open>repr\<close> of
  a \<^verbatim>\<open>bytes\<close> object: the prefix \<^verbatim>\<open>b\<close>, a single quote (a double quote when the bytes hold
  a single quote and no double quote), the quote character and the backslash escaped by a
  backslash, tab, newline and carriage return as \<^verbatim>\<open>\t\<close>, \<^verbatim>\<open>\n\<close>, \<^verbatim>\<open>\r\<close>, every other byte
  below 0x20 or from 0x7f on as \<^verbatim>\<open>\x\<close> and two lower-case hexadecimal digits.
  \<open>sample_provider\<close> answers code 13 with two chained messages, fails to decode code 99,
  and answers every other code with one message; its names compare equal when the
  pointers are equal, and it reports no name type for the name at address 8.  The other
  providers differ from it in one function.
\<close>

definition hex_digit :: "nat \<Rightarrow> char" where
  "hex_digit d = ''0123456789abcdef'' ! d"

definition py3_repr_byte :: "char \<Rightarrow> char \<Rightarrow> string" where
  "py3_repr_byte quote c =
     (if c = quote \<or> c = CHR 0x5C then [CHR 0x5C, c]
      else if c = CHR 0x09 then [CHR 0x5C, CHR ''t'']
      else if c = CHR 0x0A then [CHR 0x5C, CHR ''n'']
      else if c = CHR 0x0D then [CHR 0x5C, CHR ''r'']
      else if of_char c < (0x20 :: nat) \<or> (0x7F :: nat) \<le> of_char c then
        [CHR 0x5C, CHR ''x'', hex_digit (of_char c div 16), hex_digit (of_char c mod 16)]
      else [c])"

definition py3_bytes_repr :: "bytes \<Rightarrow> string" where
  "py3_bytes_repr b =
     (let quote = (if CHR 0x27 \<in> set b \<and> CHR 0x22 \<notin> set b then CHR 0x22 else CHR 0x27)
      in ''b'' @ [quote] @ concat (map (py3_repr_byte quote) b) @ [quote])"

definition sample_provider :: "unit provider" where
  "sample_provider =
     \<lparr>gss_display_status = (\<lambda>code ty mech ctx p.
         if code = 13 then
           (if ctx = 0 then ((GSS_S_COMPLETE, 0, 1, ''Unspecified GSS failure''), p)
            else ((GSS_S_COMPLETE, 0, 0, ''Minor code may provide more information''), p))
         else if code = 99 then ((851968, 0, ctx, []), p)
         else ((GSS_S_COMPLETE, 0, 0, ''Unknown error''), p)),
      gss_release_buffer = (\<lambda>buf p. p),
      gss_display_name = (\<lambda>nm want p.
         ((GSS_S_COMPLETE, 0, ''alice@EXAMPLE.COM'', if want \<and> nm \<noteq> 8 then Some [1, 2, 840] else None), p)),
      gss_compare_name = (\<lambda>nm1 nm2 p. ((GSS_S_COMPLETE, 0, if nm1 = nm2 then 1 else 0), p)),
      gss_release_name = (\<lambda>nm p. ((GSS_S_COMPLETE, 0, 0), p)),
      py_repr = py3_bytes_repr\<rparr>"

definition always_failing_provider :: "unit provider" where
  "always_failing_provider =
     sample_provider\<lparr>gss_display_status := (\<lambda>code ty mech ctx p. ((851968, 0, ctx, []), p))\<rparr>"

definition never_exhausting_provider :: "unit provider" where
  "never_exhausting_provider =
     sample_provider\<lparr>gss_display_status := (\<lambda>code ty mech ctx p. ((GSS_S_COMPLETE, 0, 1, ''more''), p))\<rparr>"

definition failing_release_provider :: "unit provider" where
  "failing_release_provider =
     sample_provider\<lparr>gss_release_name := (\<lambda>nm p. ((851968, 0, nm), p))\<rparr>"

definition null_rejecting_provider :: "unit provider" where
  "null_rejecting_provider =
     sample_provider\<lparr>gss_release_name := (\<lambda>nm p.
        if nm = 0 then ((131072, 0, 0), p) else ((GSS_S_COMPLETE, 0, 0), p))\<rparr>"

definition initial_world :: "unit world" where
  "initial_world = \<lparr>pstate = (), trace = []\<rparr>"

text \<open>
  \<open>get_all_statuses_returns\<close>: some budget lets \<^verbatim>\<open>get_all_statuses\<close> return.
  \<open>steps_exhaust k n\<close>: within \<open>k + 1\<close> successive \<^verbatim>\<open>display_status\<close> steps from the given
  context, each run with budget \<open>n\<close>, one step raises or reports that no message is left.
\<close>

definition get_all_statuses_returns :: "'p provider \<Rightarrow> OM_uint32 \<Rightarrow> bool \<Rightarrow> 'p world \<Rightarrow> bool" where
  "get_all_statuses_returns env code is_maj w \<longleftrightarrow> (\<exists>fuel. get_all_statuses fuel env code is_maj w \<noteq> None)"

fun steps_exhaust :: "nat \<Rightarrow> nat \<Rightarrow> 'p provider \<Rightarrow> OM_uint32 \<Rightarrow> bool \<Rightarrow> OM_uint32 \<Rightarrow> 'p world \<Rightarrow> bool" where
  "steps_exhaust 0 n env code is_maj ctx w =
     (case display_status n env code is_maj None ctx w of
        None \<Rightarrow> False
      | Some (Inl e, w1) \<Rightarrow> True
      | Some (Inr (msg, ctx', cont), w1) \<Rightarrow> \<not> cont)"
| "steps_exhaust (Suc k) n env code is_maj ctx w =
     (case display_status n env code is_maj None ctx w of
        None \<Rightarrow> False
      | Some (Inl e, w1) \<Rightarrow> True
      | Some (Inr (msg, ctx', cont), w1) \<Rightarrow> \<not> cont \<or> steps_exhaust k n env code is_maj ctx' w1)"

section \<open>Properties of the model\<close>

subsection \<open>A larger budget never changes a result\<close>

lemma display_status_mono_step:
  assumes H: "\<And>a b w r. GSSError_init n env a b w = Some r \<Longrightarrow> GSSError_init m env a b w = Some r"
    and R: "display_status (Suc n) env code is_maj mech ctx w = Some r"
  shows "display_status (Suc m) env code is_maj mech ctx w = Some r"
  using R by (auto simp: Let_def split: prod.splits if_splits option.splits dest!: H)

lemma GSSError_init_mono_step:
  assumes H: "\<And>a b w r. gen_message n env a b w = Some r \<Longrightarrow> gen_message m env a b w = Some r"
    and R: "GSSError_init (Suc n) env a b w = Some r"
  shows "GSSError_init (Suc m) env a b w = Some r"
  using R by (auto split: prod.splits option.splits dest!: H)

lemma get_all_statuses_mono_step:
  assumes D: "\<And>code is_maj mech ctx w r. display_status n env code is_maj mech ctx w = Some r
                \<Longrightarrow> display_status m env code is_maj mech ctx w = Some r"
    and L: "\<And>code is_maj res ctx cont w r. get_all_statuses_loop n env code is_maj res ctx cont w = Some r
                \<Longrightarrow> get_all_statuses_loop m env code is_maj res ctx cont w = Some r"
    and R: "get_all_statuses (Suc n) env code is_maj w = Some r"
  shows "get_all_statuses (Suc m) env code is_maj w = Some r"
proof (cases "display_status n env code is_maj None 0 w")
  case None
  with R show ?thesis by simp
next
  case (Some x)
  from D [OF Some] have "display_status m env code is_maj None 0 w = Some x" .
  with Some R show ?thesis
    by (auto split: prod.splits sum.splits dest: L)
qed

lemma get_all_statuses_loop_mono_step:
  assumes D: "\<And>code is_maj mech ctx w r. display_status n env code is_maj mech ctx w = Some r
                \<Longrightarrow> display_status m env code is_maj mech ctx w = Some r"
    and L: "\<And>code is_maj res ctx cont w r. get_all_statuses_loop n env code is_maj res ctx cont w = Some r
                \<Longrightarrow> get_all_statuses_loop m env code is_maj res ctx cont w = Some r"
    and R: "get_all_statuses_loop (Suc n) env code is_maj res ctx cont w = Some r"
  shows "get_all_statuses_loop (Suc m) env code is_maj res ctx cont w = Some r"
proof (cases cont)
  case False
  with R show ?thesis by simp
next
  case True
  show ?thesis
  proof (cases "display_status n env code is_maj None ctx w")
    case None
    with R True show ?thesis by simp
  next
    case (Some x)
    from D [OF Some] have "display_status m env code is_maj None ctx w = Some x" .
    with Some R True show ?thesis
      by (auto split: prod.splits sum.splits dest: L)
  qed
qed

lemma gen_message_mono_step:
  assumes G: "\<And>code is_maj w r. get_all_statuses n env code is_maj w = Some r
                \<Longrightarrow> get_all_statuses m env code is_maj w = Some r"
    and R: "gen_message (Suc n) env a b w = Some r"
  shows "gen_message (Suc m) env a b w = Some r"
proof (cases "get_all_statuses n env a True w")
  case None
  with R show ?thesis by simp
next
  case (Some x)
  obtain majs w1 where x: "x = (majs, w1)" by (cases x)
  from G [OF Some] have 1: "get_all_statuses m env a True w = Some x" .
  show ?thesis
  proof (cases "get_all_statuses n env b False w1")
    case None
    with R Some x show ?thesis by simp
  next
    case (Some y)
    from G [OF Some] have "get_all_statuses m env b False w1 = Some y" .
    with 1 x Some \<open>get_all_statuses n env a True w = Some x\<close> R show ?thesis
      by (auto split: prod.splits)
  qed
qed

lemma fuel_mono_all:
  "\<forall>m\<ge>n.
    (\<forall>code is_maj mech ctx w r. display_status n env code is_maj mech ctx w = Some r \<longrightarrow> display_status m env code is_maj mech ctx w = Some r)
  \<and> (\<forall>a b w r. GSSError_init n env a b w = Some r \<longrightarrow> GSSError_init m env a b w = Some r)
  \<and> (\<forall>code is_maj w r. get_all_statuses n env code is_maj w = Some r \<longrightarrow> get_all_statuses m env code is_maj w = Some r)
  \<and> (\<forall>code is_maj res ctx cont w r. get_all_statuses_loop n env code is_maj res ctx cont w = Some r \<longrightarrow> get_all_statuses_loop m env code is_maj res ctx cont w = Some r)
  \<and> (\<forall>a b w r. gen_message n env a b w = Some r \<longrightarrow> gen_message m env a b w = Some r)"
proof (induction n)
  case 0
  show ?case by simp
next
  case (Suc n)
  show ?case
  proof (intro allI impI)
    fix m assume "Suc n \<le> m"
    then obtain m' where m: "m = Suc m'" and le: "n \<le> m'" by (cases m) auto
    note A = Suc.IH [THEN spec, THEN mp, OF le]
    note IH1 = A [THEN conjunct1, rule_format]
    note IH2 = A [THEN conjunct2, THEN conjunct1, rule_format]
    note IH3 = A [THEN conjunct2, THEN conjunct2, THEN conjunct1, rule_format]
    note IH4 = A [THEN conjunct2, THEN conjunct2, THEN conjunct2, THEN conjunct1, rule_format]
    note IH5 = A [THEN conjunct2, THEN conjunct2, THEN conjunct2, THEN conjunct2, rule_format]
    have 1: "display_status (Suc m') env code is_maj mech ctx w = Some r"
      if "display_status (Suc n) env code is_maj mech ctx w = Some r" for code is_maj mech ctx w r
      using that by (rule display_status_mono_step [where n = n, rotated]) (erule IH2)
    have 2: "GSSError_init (Suc m') env a b w = Some r"
      if "GSSError_init (Suc n) env a b w = Some r" for a b w r
      using that by (rule GSSError_init_mono_step [where n = n, rotated]) (erule IH5)
    have 3: "get_all_statuses (Suc m') env code is_maj w = Some r"
      if "get_all_statuses (Suc n) env code is_maj w = Some r" for code is_maj w r
      using that by (rule get_all_statuses_mono_step [where n = n, rotated 2]) (erule IH1, erule IH4)
    have 4: "get_all_statuses_loop (Suc m') env code is_maj res ctx cont w = Some r"
      if "get_all_statuses_loop (Suc n) env code is_maj res ctx cont w = Some r"
      for code is_maj res ctx cont w r
      using that by (rule get_all_statuses_loop_mono_step [where n = n, rotated 2]) (erule IH1, erule IH4)
    have 5: "gen_message (Suc m') env a b w = Some r"
      if "gen_message (Suc n) env a b w = Some r" for a b w r
      using that by (rule gen_message_mono_step [where n = n, rotated]) (erule IH3)
    from 1 2 3 4 5
    show "(\<forall>code is_maj mech ctx w r. display_status (Suc n) env code is_maj mech ctx w = Some r \<longrightarrow> display_status m env code is_maj mech ctx w = Some r)
  \<and> (\<forall>a b w r. GSSError_init (Suc n) env a b w = Some r \<longrightarrow> GSSError_init m env a b w = Some r)
  \<and> (\<forall>code is_maj w r. get_all_statuses (Suc n) env code is_maj w = Some r \<longrightarrow> get_all_statuses m env code is_maj w = Some r)
  \<and> (\<forall>code is_maj res ctx cont w r. get_all_statuses_loop (Suc n) env code is_maj res ctx cont w = Some r \<longrightarrow> get_all_statuses_loop m env code is_maj res ctx cont w = Some r)
  \<and> (\<forall>a b w r. gen_message (Suc n) env a b w = Some r \<longrightarrow> gen_message m env a b w = Some r)"
      unfolding m by blast
  qed
qed

lemmas fuel_mono = fuel_mono_all [THEN spec, THEN mp]

subsection \<open>The message list only grows\<close>

lemma get_all_statuses_loop_extends:
  "get_all_statuses_loop n env code is_maj res ctx cont w = Some (msgs, w') \<Longrightarrow> \<exists>ys. msgs = res @ ys"
proof (induction n arbitrary: res ctx cont w)
  case 0
  then show ?case by simp
next
  case (Suc n)
  show ?case
  proof (cases cont)
    case False
    with Suc.prems show ?thesis by simp
  next
    case True
    with Suc.prems show ?thesis
      by (auto split: option.splits prod.splits sum.splits dest!: Suc.IH)
  qed
qed

lemma get_all_statuses_nonempty:
  assumes "get_all_statuses n env code is_maj w = Some (msgs, w')"
  shows "msgs \<noteq> []"
proof (cases n)
  case 0
  with assms show ?thesis by simp
next
  case (Suc k)
  with assms show ?thesis
    by (auto split: option.splits prod.splits sum.splits dest!: get_all_statuses_loop_extends)
qed

subsection \<open>The trace only grows\<close>

lemma trace_call_gss_display_status:
  "call_gss_display_status env c t m ctx w = (r, w1) \<Longrightarrow> trace w1 = trace w @ [Call_display_status c t m ctx]"
  by (auto simp: call_gss_display_status_def split: prod.splits)

lemma trace_call_gss_release_buffer:
  "trace (call_gss_release_buffer env b w) = trace w @ [Call_release_buffer b]"
  by (simp add: call_gss_release_buffer_def)

lemma display_status_trace_step:
  assumes H: "\<And>a b w r w'. GSSError_init n env a b w = Some (r, w') \<Longrightarrow> prefix (trace w) (trace w')"
    and R: "display_status (Suc n) env code is_maj mech ctx w = Some (r, w')"
  shows "prefix (trace w @ [Call_display_status code (if is_maj then GSS_C_GSS_CODE else GSS_C_MECH_CODE)
            (case mech of None \<Rightarrow> GSS_C_NO_OID | Some m \<Rightarrow> Some (raw_oid m)) ctx]) (trace w')"
proof -
  let ?ty = "if is_maj then GSS_C_GSS_CODE else GSS_C_MECH_CODE"
  let ?m = "case mech of None \<Rightarrow> GSS_C_NO_OID | Some m \<Rightarrow> Some (raw_oid m)"
  obtain maj mn ctx' buf w1 where c: "call_gss_display_status env code ?ty ?m ctx w = ((maj, mn, ctx', buf), w1)"
    by (metis prod.exhaust)
  have t1: "trace w1 = trace w @ [Call_display_status code ?ty ?m ctx]"
    using c by (rule trace_call_gss_display_status)
  show ?thesis
  proof (cases "maj = GSS_S_COMPLETE")
    case True
    with R c have "w' = call_gss_release_buffer env buf w1"
      by (simp add: Let_def)
    then show ?thesis by (simp add: trace_call_gss_release_buffer t1)
  next
    case False
    with R c obtain e where "GSSError_init n env maj mn w1 = Some (e, w')"
      by (auto simp: Let_def split: option.splits)
    from H [OF this] show ?thesis by (simp add: t1)
  qed
qed

lemma trace_prefix_all:
  "(\<forall>code is_maj mech ctx w r w'. display_status n env code is_maj mech ctx w = Some (r, w') \<longrightarrow> prefix (trace w) (trace w'))
 \<and> (\<forall>a b w r w'. GSSError_init n env a b w = Some (r, w') \<longrightarrow> prefix (trace w) (trace w'))
 \<and> (\<forall>code is_maj w r w'. get_all_statuses n env code is_maj w = Some (r, w') \<longrightarrow> prefix (trace w) (trace w'))
 \<and> (\<forall>code is_maj res ctx cont w r w'. get_all_statuses_loop n env code is_maj res ctx cont w = Some (r, w') \<longrightarrow> prefix (trace w) (trace w'))
 \<and> (\<forall>a b w r w'. gen_message n env a b w = Some (r, w') \<longrightarrow> prefix (trace w) (trace w'))"
proof (induction n)
  case 0
  show ?case by simp
next
  case (Suc n)
  note IH1 = Suc.IH [THEN conjunct1, rule_format]
  note IH2 = Suc.IH [THEN conjunct2, THEN conjunct1, rule_format]
  note IH3 = Suc.IH [THEN conjunct2, THEN conjunct2, THEN conjunct1, rule_format]
  note IH4 = Suc.IH [THEN conjunct2, THEN conjunct2, THEN conjunct2, THEN conjunct1, rule_format]
  note IH5 = Suc.IH [THEN conjunct2, THEN conjunct2, THEN conjunct2, THEN conjunct2, rule_format]
  have 1: "prefix (trace w) (trace w')"
    if "display_status (Suc n) env code is_maj mech ctx w = Some (r, w')" for code is_maj mech ctx w r w'
    using display_status_trace_step [OF _ that] IH2 by (meson append_prefixD)
  have 2: "prefix (trace w) (trace w')"
    if "GSSError_init (Suc n) env a b w = Some (r, w')" for a b w r w'
    using that by (auto split: option.splits prod.splits dest: IH5)
  have 4: "prefix (trace w) (trace w')"
    if "get_all_statuses_loop (Suc n) env code is_maj res ctx cont w = Some (r, w')"
    for code is_maj res ctx cont w r w'
  proof (cases cont)
    case False
    with that show ?thesis by simp
  next
    case True
    with that show ?thesis
      by (auto split: option.splits prod.splits sum.splits dest!: IH1 IH4 intro: prefix_order.trans)
  qed
  have 3: "prefix (trace w) (trace w')"
    if "get_all_statuses (Suc n) env code is_maj w = Some (r, w')" for code is_maj w r w'
    using that by (auto split: option.splits prod.splits sum.splits dest!: IH1 IH4 intro: prefix_order.trans)
  have 5: "prefix (trace w) (trace w')"
    if "gen_message (Suc n) env a b w = Some (r, w')" for a b w r w'
    using that by (auto split: option.splits prod.splits dest!: IH3 intro: prefix_order.trans)
  from 1 2 3 4 5 show ?case by blast
qed

lemmas display_status_trace_prefix = trace_prefix_all [THEN conjunct1, rule_format]
lemmas GSSError_init_trace_prefix = trace_prefix_all [THEN conjunct2, THEN conjunct1, rule_format]



subsection \<open>A step that raises yields the placeholder\<close>

lemma get_all_statuses_placeholder:
  assumes "display_status n env code is_maj None 0 w = Some (Inl e, w1)"
  shows "get_all_statuses (Suc n) env code is_maj w = Some ([issue_decoding code], w1)"
proof (cases n)
  case 0
  with assms show ?thesis by simp
next
  case (Suc k)
  with assms show ?thesis by (simp del: display_status.simps)
qed

lemma get_all_statuses_loop_placeholder:
  assumes "display_status n env code is_maj None ctx w = Some (Inl e, w1)"
  shows "get_all_statuses_loop (Suc n) env code is_maj res ctx True w
           = Some (res @ [issue_decoding code], w1)"
proof (cases n)
  case 0
  with assms show ?thesis by simp
next
  case (Suc k)
  with assms show ?thesis by (simp del: display_status.simps)
qed

subsection \<open>Providers that never let the decoder finish\<close>

lemma always_failing_never_returns:
  "display_status n always_failing_provider code is_maj mech ctx w = None
 \<and> GSSError_init n always_failing_provider a b w = None
 \<and> get_all_statuses n always_failing_provider code is_maj w = None
 \<and> gen_message n always_failing_provider a b w = None"
proof (induction n arbitrary: code is_maj mech ctx a b w)
  case 0
  show ?case by simp
next
  case (Suc n)
  have 1: "display_status (Suc n) always_failing_provider code is_maj mech ctx w = None"
    using Suc [THEN conjunct2, THEN conjunct1]
    by (simp add: always_failing_provider_def call_gss_display_status_def GSS_S_COMPLETE_def Let_def)
  have 2: "GSSError_init (Suc n) always_failing_provider a b w = None"
    using Suc [THEN conjunct2, THEN conjunct2, THEN conjunct2] by simp
  have 3: "get_all_statuses (Suc n) always_failing_provider code is_maj w = None"
    using Suc [THEN conjunct1] by simp
  have 4: "gen_message (Suc n) always_failing_provider a b w = None"
    using Suc [THEN conjunct2, THEN conjunct2, THEN conjunct1] by simp
  from 1 2 3 4 show ?case by simp
qed

lemma never_exhausting_display_status:
  "display_status (Suc n) never_exhausting_provider code is_maj None ctx w
     = Some (Inr (''more'', 1, True), call_gss_release_buffer never_exhausting_provider ''more''
         (snd (call_gss_display_status never_exhausting_provider code
            (if is_maj then GSS_C_GSS_CODE else GSS_C_MECH_CODE) GSS_C_NO_OID ctx w)))"
  by (simp add: never_exhausting_provider_def call_gss_display_status_def GSS_S_COMPLETE_def Let_def)

lemma never_exhausting_loop:
  "get_all_statuses_loop n never_exhausting_provider code is_maj res ctx True w = None"
proof (induction n arbitrary: res ctx w)
  case 0
  show ?case by simp
next
  case (Suc n)
  show ?case
  proof (cases n)
    case 0
    then show ?thesis by simp
  next
    case (Suc k)
    with Suc.IH show ?thesis
      by (simp add: never_exhausting_display_status del: display_status.simps)
  qed
qed

lemma never_exhausting_get_all_statuses:
  "get_all_statuses n never_exhausting_provider code is_maj w = None"
proof (cases n)
  case 0
  then show ?thesis by simp
next
  case (Suc k)
  show ?thesis
  proof (cases k)
    case 0
    with Suc show ?thesis by simp
  next
    case (Suc j)
    with \<open>n = Suc k\<close> show ?thesis
      by (simp add: never_exhausting_display_status never_exhausting_loop
          del: display_status.simps get_all_statuses_loop.simps)
  qed
qed

subsection \<open>Steps that exhaust the messages bound the loop\<close>

lemma steps_exhaust_loop:
  assumes "steps_exhaust k n env code is_maj ctx w"
  shows "\<exists>ys w'. get_all_statuses_loop (Suc (Suc (k + n))) env code is_maj res ctx True w = Some (res @ ys, w')
            \<and> ys \<noteq> [] \<and> length ys \<le> Suc k"
  using assms
proof (induction k arbitrary: ctx w res)
  case 0
  then obtain r w1 where d: "display_status n env code is_maj None ctx w = Some (r, w1)"
    and c: "case r of Inl e \<Rightarrow> True | Inr (msg, ctx', cont) \<Rightarrow> \<not> cont"
    by (auto split: option.splits prod.splits sum.splits)
  from fuel_mono [THEN conjunct1, rule_format, OF _ d, of "Suc n"]
  have d': "display_status (Suc n) env code is_maj None ctx w = Some (r, w1)" by simp
  show ?case
  proof (cases r)
    case (Inl e)
    with d' show ?thesis by (simp del: display_status.simps)
  next
    case (Inr x)
    with c d' show ?thesis by (auto simp del: display_status.simps split: prod.splits)
  qed
next
  case (Suc k)
  then obtain r w1 where d: "display_status n env code is_maj None ctx w = Some (r, w1)"
    and c: "case r of Inl e \<Rightarrow> True | Inr (msg, ctx', cont) \<Rightarrow> \<not> cont \<or> steps_exhaust k n env code is_maj ctx' w1"
    by (auto split: option.splits prod.splits sum.splits)
  from fuel_mono [THEN conjunct1, rule_format, OF _ d, of "Suc (Suc (k + n))"]
  have d': "display_status (Suc (Suc (k + n))) env code is_maj None ctx w = Some (r, w1)" by simp
  show ?case
  proof (cases r)
    case (Inl e)
    with d' show ?thesis by (simp del: display_status.simps)
  next
    case (Inr x)
    obtain msg ctx' cont where x: "x = (msg, ctx', cont)" by (cases x)
    show ?thesis
    proof (cases cont)
      case False
      with Inr x d' show ?thesis by (simp del: display_status.simps)
    next
      case True
      with c Inr x have "steps_exhaust k n env code is_maj ctx' w1" by simp
      from Suc.IH [OF this, of "res @ [msg]"] obtain ys w' where
        "get_all_statuses_loop (Suc (Suc (k + n))) env code is_maj (res @ [msg]) ctx' True w1 = Some ((res @ [msg]) @ ys, w')"
        and "length ys \<le> Suc k" by blast
      with Inr x d' True show ?thesis
        by (auto simp del: display_status.simps intro!: exI [of _ "msg # ys"])
    qed
  qed
qed

subsection \<open>Releasing names\<close>

lemma trace_call_gss_release_name:
  "call_gss_release_name env nm w = (r, w1) \<Longrightarrow> trace w1 = trace w @ [Call_release_name nm]"
  by (auto simp: call_gss_release_name_def split: prod.splits)

lemma trace_call_gss_display_name:
  "call_gss_display_name env nm want w = (r, w1) \<Longrightarrow> trace w1 = trace w @ [Call_display_name nm want]"
  by (auto simp: call_gss_display_name_def split: prod.splits)

lemma GSSError_init_codes:
  "GSSError_init fuel env maj_c min_c w = Some (e, w') \<Longrightarrow> maj_code e = maj_c \<and> min_code e = min_c"
  by (cases fuel) (auto split: option.splits prod.splits)

lemma Name_dealloc_eq_release_name:
  "raw_name h \<noteq> GSS_C_NO_NAME \<Longrightarrow> Name_dealloc fuel env h w = release_name fuel env h w"
  by (simp add: Name_dealloc_def release_name_def)

lemma Name_dealloc_calls_provider:
  assumes "raw_name h \<noteq> GSS_C_NO_NAME" and "Name_dealloc fuel env h w = Some (r, h', w')"
  shows "\<exists>t. trace w' = trace w @ Call_release_name (raw_name h) # t"
proof -
  obtain maj mn nm w1 where c: "call_gss_release_name env (raw_name h) w = ((maj, mn, nm), w1)"
    by (metis prod.exhaust)
  note t = trace_call_gss_release_name [OF c]
  show ?thesis
  proof (cases "maj = GSS_S_COMPLETE")
    case True
    with assms c have "w' = w1" by (simp add: Name_dealloc_def)
    with t show ?thesis by simp
  next
    case False
    with assms c obtain e where "GSSError_init fuel env maj mn w1 = Some (e, w')"
      by (auto simp: Name_dealloc_def split: option.splits)
    from GSSError_init_trace_prefix [OF this] t show ?thesis
      by (auto simp: prefix_def)
  qed
qed

subsection \<open>The message of an error report that gets built\<close>

text \<open>
  Every message \<^verbatim>\<open>get_all_statuses\<close> returns is the placeholder or the message of a
  successful \<^verbatim>\<open>display_status\<close> step for the code.  When the constructor of
  \<^verbatim>\<open>GSSError\<close> returns, the message holds both codes in decimal and the rendering of
  the two non-empty lists \<^verbatim>\<open>get_all_statuses\<close> returned.
\<close>

lemma get_all_statuses_loop_messages:
  assumes "get_all_statuses_loop n env code is_maj res ctx cont w = Some (msgs, w')"
  shows "\<forall>m \<in> set msgs. m \<in> set res \<or> m = issue_decoding code
           \<or> (\<exists>k c v c' cont' v'. display_status k env code is_maj None c v = Some (Inr (m, c', cont'), v'))"
  using assms
proof (induction n arbitrary: res ctx cont w)
  case 0
  then show ?case by simp
next
  case (Suc n)
  show ?case
  proof (cases cont)
    case False
    with Suc.prems show ?thesis by simp
  next
    case True
    show ?thesis
    proof (cases "display_status n env code is_maj None ctx w")
      case None
      with Suc.prems True show ?thesis by simp
    next
      case (Some x)
      obtain r w1 where x: "x = (r, w1)" by (cases x)
      show ?thesis
      proof (cases r)
        case (Inl e)
        with Suc.prems True Some x
        have "get_all_statuses_loop n env code is_maj (res @ [issue_decoding code]) ctx False w1 = Some (msgs, w')"
          by simp
        from Suc.IH [OF this] show ?thesis by auto
      next
        case (Inr y)
        obtain msg c' cont' where y: "y = (msg, c', cont')" by (cases y)
        with Suc.prems True Some x Inr
        have "get_all_statuses_loop n env code is_maj (res @ [msg]) c' cont' w1 = Some (msgs, w')"
          by simp
        from Suc.IH [OF this] Some x Inr y show ?thesis by auto
      qed
    qed
  qed
qed

lemma get_all_statuses_messages:
  assumes "get_all_statuses n env code is_maj w = Some (msgs, w')"
  shows "\<forall>m \<in> set msgs. m = issue_decoding code
           \<or> (\<exists>k c v c' cont' v'. display_status k env code is_maj None c v = Some (Inr (m, c', cont'), v'))"
proof (cases n)
  case 0
  with assms show ?thesis by simp
next
  case (Suc j)
  show ?thesis
  proof (cases "display_status j env code is_maj None 0 w")
    case None
    with assms Suc show ?thesis by simp
  next
    case (Some x)
    obtain r w1 where x: "x = (r, w1)" by (cases x)
    show ?thesis
    proof (cases r)
      case (Inl e)
      with assms Suc Some x
      have "get_all_statuses_loop j env code is_maj [issue_decoding code] 0 False w1 = Some (msgs, w')"
        by simp
      from get_all_statuses_loop_messages [OF this] show ?thesis by auto
    next
      case (Inr y)
      obtain msg c' cont' where y: "y = (msg, c', cont')" by (cases y)
      with assms Suc Some x Inr
      have "get_all_statuses_loop j env code is_maj [msg] c' cont' w1 = Some (msgs, w')"
        by simp
      from get_all_statuses_loop_messages [OF this] Some x Inr y show ?thesis by auto
    qed
  qed
qed

lemma GSSError_message_when_built:
  assumes "GSSError_init fuel env maj_c min_c w = Some (e, w')"
  shows "\<exists>n maj_statuses w1 min_statuses.
           get_all_statuses n env maj_c True w = Some (maj_statuses, w1)
         \<and> get_all_statuses n env min_c False w1 = Some (min_statuses, w')
         \<and> maj_statuses \<noteq> [] \<and> min_statuses \<noteq> []
         \<and> message e = format_message env maj_c maj_statuses min_c min_statuses
         \<and> sublist (''Major ('' @ str_nat (unat maj_c) @ '')'') (message e)
         \<and> sublist (''Minor ('' @ str_nat (unat min_c) @ '')'') (message e)
         \<and> sublist (str_list env maj_statuses) (message e)
         \<and> sublist (str_list env min_statuses) (message e)"
proof -
  from assms obtain k where k: "fuel = Suc k" by (cases fuel) auto
  from assms k obtain m where m: "gen_message k env maj_c min_c w = Some (m, w')"
    and e: "message e = m"
    by (auto split: option.splits prod.splits)
  from m obtain n where n: "k = Suc n" by (cases k) auto
  from m n obtain maj_statuses w1 min_statuses where
    a: "get_all_statuses n env maj_c True w = Some (maj_statuses, w1)"
    and b: "get_all_statuses n env min_c False w1 = Some (min_statuses, w')"
    and f: "m = format_message env maj_c maj_statuses min_c min_statuses"
    by (auto split: option.splits prod.splits)
  note ne = get_all_statuses_nonempty [OF a] get_all_statuses_nonempty [OF b]
  have 1: "sublist (''Major ('' @ str_nat (unat maj_c) @ '')'') (message e)"
    unfolding e f format_message_def sublist_def
    by (rule exI [of _ "[]"], rule exI [of _ "'': '' @ str_list env maj_statuses
       @ '', Minor ('' @ str_nat (unat min_c) @ ''): '' @ str_list env min_statuses"]) simp
  have 2: "sublist (''Minor ('' @ str_nat (unat min_c) @ '')'') (message e)"
    unfolding e f format_message_def sublist_def
    by (rule exI [of _ "''Major ('' @ str_nat (unat maj_c) @ ''): '' @ str_list env maj_statuses @ '', ''"],
        rule exI [of _ "'': '' @ str_list env min_statuses"]) simp
  have 3: "sublist (str_list env maj_statuses) (message e)"
    unfolding e f format_message_def sublist_def
    by (rule exI [of _ "''Major ('' @ str_nat (unat maj_c) @ ''): ''"],
        rule exI [of _ "'', Minor ('' @ str_nat (unat min_c) @ ''): '' @ str_list env min_statuses"]) simp
  have 4: "sublist (str_list env min_statuses) (message e)"
    unfolding e f format_message_def sublist_def
    by (rule exI [of _ "''Major ('' @ str_nat (unat maj_c) @ ''): '' @ str_list env maj_statuses
       @ '', Minor ('' @ str_nat (unat min_c) @ ''): ''"], rule exI [of _ "[]"]) simp
  from 1 2 3 4 ne a b e f show ?thesis by blast
qed

lemma GSSError_message_example:
  "GSSError_init 5 sample_provider 13 0 initial_world \<noteq> None
   \<and> sublist ''Major (13)'' (message (fst (the (GSSError_init 5 sample_provider 13 0 initial_world))))
   \<and> sublist ''Minor (0)'' (message (fst (the (GSSError_init 5 sample_provider 13 0 initial_world))))
   \<and> GSSError_init 8 sample_provider 99 0 initial_world \<noteq> None
   \<and> sublist ''issue decoding code: 99''
         (message (fst (the (GSSError_init 8 sample_provider 99 0 initial_world))))"
  by code_simp

section \<open>The claims\<close>

subsection \<open>Status decoding\<close>

text \<open>
  C10: every successful return of \<^verbatim>\<open>display_status\<close> has its continuation flag equal
  to whether the returned message context is non-zero.
\<close>

theorem display_status_call_again_iff_context:
  "display_status fuel env error_code is_major_code mech_type message_context w
     = Some (Inr (msg_out, msg_ctx_out, call_again), w')
   \<Longrightarrow> call_again = (msg_ctx_out \<noteq> 0)"
  by (cases fuel) (auto simp: Let_def split: prod.splits if_splits option.splits)

theorem display_status_call_again_iff_context_witness:
  "display_status 1 sample_provider 13 True None 0 initial_world
     = Some (Inr (''Unspecified GSS failure'', 1, True),
         \<lparr>pstate = (), trace = [Call_display_status 13 1 None 0,
            Call_release_buffer ''Unspecified GSS failure'']\<rparr>)
   \<and> True = ((1 :: OM_uint32) \<noteq> 0)"
proof -
  have h: "display_status 1 sample_provider 13 True None 0 initial_world
     = Some (Inr (''Unspecified GSS failure'', 1, True),
         \<lparr>pstate = (), trace = [Call_display_status 13 1 None 0,
            Call_release_buffer ''Unspecified GSS failure'']\<rparr>)"
    by code_simp
  from display_status_call_again_iff_context [OF h] h show ?thesis by simp
qed

text \<open>
  C4: the claim is that \<^verbatim>\<open>get_all_statuses\<close> always returns a list with at least one
  message, the placeholder standing in for a step that fails.  With a provider whose
  \<^verbatim>\<open>gss_display_status\<close> fails on every query it never returns, whatever the budget:
  \<^verbatim>\<open>display_status\<close> builds \<^verbatim>\<open>GSSError(maj_stat, min_stat)\<close> before raising it, the
  constructor decodes these two codes with \<^verbatim>\<open>get_all_statuses\<close>, whose
  \<^verbatim>\<open>display_status\<close> fails again, and so on without end; the \<^verbatim>\<open>except GSSError\<close>
  branch that appends the placeholder is never reached.
\<close>

theorem get_all_statuses_always_failing_provider:
  "get_all_statuses fuel always_failing_provider 13 True initial_world = None"
  using always_failing_never_returns [of fuel 13 True None 0 initial_world 0 0] by simp

text \<open>
  C5, as stated, fails: with a provider that always answers with success and a non-zero
  message context, no budget lets \<^verbatim>\<open>get_all_statuses\<close> return for code 13.
\<close>

theorem get_all_statuses_never_exhausting_counterexample:
  "\<not> get_all_statuses_returns never_exhausting_provider 13 True initial_world"
  by (simp add: get_all_statuses_returns_def never_exhausting_get_all_statuses)

text \<open>
  C5, amended: for every status code, kind and provider such that, within finitely many
  successive \<^verbatim>\<open>display_status\<close> steps from context 0, one step either raises or reports
  that no further message is left (continuation flag false, zero context), the
  message-retrieval loop of \<^verbatim>\<open>get_all_statuses\<close> terminates and returns a finite,
  non-empty list with at most one message per step taken.
\<close>

theorem get_all_statuses_terminates_when_steps_exhaust:
  assumes "steps_exhaust k n env code is_maj 0 w"
  shows "\<exists>msgs w'. get_all_statuses (Suc (Suc (Suc (k + n)))) env code is_maj w = Some (msgs, w')
            \<and> msgs \<noteq> [] \<and> length msgs \<le> Suc k"
proof -
  let ?F = "Suc (Suc (k + n))"
  from assms obtain r w1 where d: "display_status n env code is_maj None 0 w = Some (r, w1)"
    by (cases k) (auto split: option.splits)
  from fuel_mono [THEN conjunct1, rule_format, OF _ d, of ?F]
  have d': "display_status ?F env code is_maj None 0 w = Some (r, w1)" by simp
  show ?thesis
  proof (cases r)
    case (Inl e)
    with d' show ?thesis by (simp del: display_status.simps)
  next
    case (Inr x)
    obtain msg ctx' cont where x: "x = (msg, ctx', cont)" by (cases x)
    show ?thesis
    proof (cases cont)
      case False
      with Inr x d' show ?thesis by (simp del: display_status.simps)
    next
      case True
      with assms d Inr x obtain j where j: "k = Suc j"
        and s: "steps_exhaust j n env code is_maj ctx' w1"
        by (cases k) auto
      from steps_exhaust_loop [OF s, of "[msg]"] obtain ys w' where
        l: "get_all_statuses_loop (Suc (Suc (j + n))) env code is_maj [msg] ctx' True w1 = Some ([msg] @ ys, w')"
        and len: "length ys \<le> Suc j" by blast
      from fuel_mono [THEN conjunct2, THEN conjunct2, THEN conjunct2, THEN conjunct1, rule_format, OF _ l, of ?F] j
      have "get_all_statuses_loop ?F env code is_maj [msg] ctx' True w1 = Some ([msg] @ ys, w')"
        by simp
      with Inr x d' True len j show ?thesis
        by (simp del: display_status.simps get_all_statuses_loop.simps)
    qed
  qed
qed

theorem get_all_statuses_terminates_when_steps_exhaust_witness:
  "steps_exhaust 1 1 sample_provider 13 True 0 initial_world
   \<and> (\<exists>msgs w'. get_all_statuses (Suc (Suc (Suc (1 + 1)))) sample_provider 13 True initial_world = Some (msgs, w')
            \<and> msgs \<noteq> [] \<and> length msgs \<le> Suc 1)"
proof -
  have h: "steps_exhaust 1 1 sample_provider 13 True 0 initial_world"
    by code_simp
  from get_all_statuses_terminates_when_steps_exhaust [OF h] h show ?thesis by simp
qed

subsection \<open>Error reports\<close>



text \<open>
  C6: the claim is that for every major code M and minor code N the message of the
  \<^verbatim>\<open>GSSError\<close> built from (M, N) contains \<open>Major (M)\<close>, \<open>Minor (N)\<close> and at least one
  decoded or placeholder string for each code, in particular for M = 13 and N = 0.  With
  a provider whose \<^verbatim>\<open>gss_display_status\<close> fails on every query, no \<^verbatim>\<open>GSSError\<close> is ever
  built from (13, 0), whatever the budget: decoding the major code raises, raising
  builds another \<^verbatim>\<open>GSSError\<close>, whose constructor decodes again, and the placeholder is
  never put in a message.  This is the defect of C4, met from the constructor.
\<close>

theorem GSSError_init_always_failing_provider:
  "GSSError_init fuel always_failing_provider 13 0 initial_world = None"
  using always_failing_never_returns [of fuel 13 True None 0 initial_world 13 0] by simp

subsection \<open>Name handles\<close>

text \<open>
  C3: constructing a handle by ownership transfer, \<^verbatim>\<open>Name(other)\<close>, gives the new
  handle exactly the resource \<open>other\<close> held, leaves \<open>other\<close> in the sentinel state, and
  makes no provider call (the constructor does not take the world); destroying
  \<open>other\<close> afterwards returns normally and leaves the world, hence the sequence of
  provider calls, unchanged: no release call is made.
\<close>

theorem Name_cinit_transfers_ownership:
  "Name_cinit (Some other)
     = (\<lparr>raw_name = raw_name other\<rparr>, Some (other\<lparr>raw_name := GSS_C_NO_NAME\<rparr>))
   \<and> raw_name (other\<lparr>raw_name := GSS_C_NO_NAME\<rparr>) = GSS_C_NO_NAME
   \<and> Name_dealloc fuel env (other\<lparr>raw_name := GSS_C_NO_NAME\<rparr>) w
     = Some (Inr (), other\<lparr>raw_name := GSS_C_NO_NAME\<rparr>, w)"
  by (simp add: Name_cinit_def Name_dealloc_def)

text \<open>
  C1, as stated, fails.  With a provider whose release primitive fails and leaves the
  pointer as it was, \<^verbatim>\<open>release_name\<close> raises the \<^verbatim>\<open>GSSError\<close> with the provider's
  codes, but the handle still holds the name 7, not the sentinel: the reset
  \<^verbatim>\<open>name.raw_name = NULL\<close> comes after the \<^verbatim>\<open>raise\<close>.  A destruction that follows
  calls the provider's release a second time.
\<close>

theorem release_name_failure_counterexample:
  "release_name 5 failing_release_provider \<lparr>raw_name = 7\<rparr> initial_world
     = Some (Inl \<lparr>maj_code = 851968, min_code = 0,
                  message = format_message failing_release_provider 851968 [''Unknown error'']
                              0 [''Unknown error'']\<rparr>,
             \<lparr>raw_name = 7\<rparr>,
             \<lparr>pstate = (), trace = [Call_release_name 7,
                Call_display_status 851968 1 None 0, Call_release_buffer ''Unknown error'',
                Call_display_status 0 2 None 0, Call_release_buffer ''Unknown error'']\<rparr>)
   \<and> (7 :: gss_name_t) \<noteq> GSS_C_NO_NAME
   \<and> Name_dealloc 5 failing_release_provider \<lparr>raw_name = 7\<rparr>
        \<lparr>pstate = (), trace = [Call_release_name 7,
                Call_display_status 851968 1 None 0, Call_release_buffer ''Unknown error'',
                Call_display_status 0 2 None 0, Call_release_buffer ''Unknown error'']\<rparr>
     = Some (Inl \<lparr>maj_code = 851968, min_code = 0,
                  message = format_message failing_release_provider 851968 [''Unknown error'']
                              0 [''Unknown error'']\<rparr>,
             \<lparr>raw_name = 7\<rparr>,
             \<lparr>pstate = (), trace = [Call_release_name 7,
                Call_display_status 851968 1 None 0, Call_release_buffer ''Unknown error'',
                Call_display_status 0 2 None 0, Call_release_buffer ''Unknown error'',
                Call_release_name 7,
                Call_display_status 851968 1 None 0, Call_release_buffer ''Unknown error'',
                Call_display_status 0 2 None 0, Call_release_buffer ''Unknown error'']\<rparr>)"
  by code_simp

text \<open>
  C1, amended: for every handle, when the provider's release primitive returns a
  non-success status and \<^verbatim>\<open>release_name\<close> returns (the error report gets built), it
  raises a \<^verbatim>\<open>GSSError\<close> carrying the provider's two codes, and the handle holds the
  value the provider left in it: the wrapper does not reset the handle on failure.  For
  a non-sentinel handle the automatic release on destruction does the same.  A
  destruction that follows makes no provider call when the value left is the sentinel,
  and calls the provider's release again with that value when it is not.
\<close>

theorem release_failure_keeps_provider_value:
  assumes prov: "gss_release_name env (raw_name h) (pstate w) = ((maj_stat, min_stat, nm), p1)"
    and fails: "maj_stat \<noteq> GSS_S_COMPLETE"
    and ret: "release_name fuel env h w = Some (r, h', w')"
  shows "(\<exists>e. r = Inl e \<and> maj_code e = maj_stat \<and> min_code e = min_stat)
       \<and> raw_name h' = nm
       \<and> (raw_name h \<noteq> GSS_C_NO_NAME \<longrightarrow> Name_dealloc fuel env h w = Some (r, h', w'))
       \<and> (nm = GSS_C_NO_NAME \<longrightarrow> Name_dealloc fuel' env h' w' = Some (Inr (), h', w'))
       \<and> (nm \<noteq> GSS_C_NO_NAME \<longrightarrow>
            (\<forall>r2 h2 w2. Name_dealloc fuel' env h' w' = Some (r2, h2, w2)
               \<longrightarrow> (\<exists>t. trace w2 = trace w' @ Call_release_name nm # t)))"
proof -
  let ?w1 = "\<lparr>pstate = p1, trace = trace w @ [Call_release_name (raw_name h)]\<rparr>"
  from prov have c: "call_gss_release_name env (raw_name h) w = ((maj_stat, min_stat, nm), ?w1)"
    by (simp add: call_gss_release_name_def)
  from ret c fails obtain e where
    g: "GSSError_init fuel env maj_stat min_stat ?w1 = Some (e, w')"
    and r: "r = Inl e" and h': "h' = h\<lparr>raw_name := nm\<rparr>"
    by (auto simp: release_name_def split: option.splits)
  from GSSError_init_codes [OF g] r have 1: "\<exists>e. r = Inl e \<and> maj_code e = maj_stat \<and> min_code e = min_stat"
    by simp
  from h' have 2: "raw_name h' = nm" by simp
  have 3: "raw_name h \<noteq> GSS_C_NO_NAME \<longrightarrow> Name_dealloc fuel env h w = Some (r, h', w')"
    using ret by (simp add: Name_dealloc_eq_release_name)
  have 4: "nm = GSS_C_NO_NAME \<longrightarrow> Name_dealloc fuel' env h' w' = Some (Inr (), h', w')"
    using 2 by (simp add: Name_dealloc_def)
  have 5: "nm \<noteq> GSS_C_NO_NAME \<longrightarrow>
            (\<forall>r2 h2 w2. Name_dealloc fuel' env h' w' = Some (r2, h2, w2)
               \<longrightarrow> (\<exists>t. trace w2 = trace w' @ Call_release_name nm # t))"
    using Name_dealloc_calls_provider [of h' fuel' env w'] 2 by blast
  from 1 2 3 4 5 show ?thesis by blast
qed

theorem release_failure_keeps_provider_value_witness:
  "gss_release_name failing_release_provider (raw_name \<lparr>raw_name = 7\<rparr>) (pstate initial_world)
     = ((851968, 0, 7), ())
   \<and> (851968 :: OM_uint32) \<noteq> GSS_S_COMPLETE
   \<and> release_name 5 failing_release_provider \<lparr>raw_name = 7\<rparr> initial_world \<noteq> None
   \<and> maj_code (projl (fst (the (release_name 5 failing_release_provider \<lparr>raw_name = 7\<rparr> initial_world))))
       = 851968
   \<and> raw_name (fst (snd (the (release_name 5 failing_release_provider \<lparr>raw_name = 7\<rparr> initial_world))))
       = 7"
proof -
  have p: "gss_release_name failing_release_provider (raw_name \<lparr>raw_name = 7\<rparr>) (pstate initial_world)
     = ((851968, 0, 7), ())"
    by code_simp
  have f: "(851968 :: OM_uint32) \<noteq> GSS_S_COMPLETE"
    by code_simp
  have n: "release_name 5 failing_release_provider \<lparr>raw_name = 7\<rparr> initial_world \<noteq> None"
    by code_simp
  then obtain r h' w' where
    r: "release_name 5 failing_release_provider \<lparr>raw_name = 7\<rparr> initial_world = Some (r, h', w')"
    by auto
  from release_failure_keeps_provider_value [OF p f r, where ?fuel' = 0] p f n r show ?thesis
    by auto
qed

text \<open>
  C2: the claim is that a second \<^verbatim>\<open>release_name\<close> on the same handle does not fail
  and does not call the provider again.  \<^verbatim>\<open>release_name\<close> has no sentinel guard
  (\<^verbatim>\<open>__dealloc__\<close> has one), so on a handle already reset by a first release the
  second call passes the null name to the provider; with a provider that rejects the
  null name the call raises \<^verbatim>\<open>GSSError\<close>.  \<^verbatim>\<open>__dealloc__\<close> on the same handle and
  world makes no call.
\<close>

theorem release_name_twice_calls_provider_twice:
  "release_name 5 null_rejecting_provider \<lparr>raw_name = 7\<rparr> initial_world
     = Some (Inr (), \<lparr>raw_name = GSS_C_NO_NAME\<rparr>, \<lparr>pstate = (), trace = [Call_release_name 7]\<rparr>)
   \<and> release_name 5 null_rejecting_provider \<lparr>raw_name = GSS_C_NO_NAME\<rparr>
        \<lparr>pstate = (), trace = [Call_release_name 7]\<rparr>
     = Some (Inl \<lparr>maj_code = 131072, min_code = 0,
                  message = format_message null_rejecting_provider 131072 [''Unknown error'']
                              0 [''Unknown error'']\<rparr>,
             \<lparr>raw_name = GSS_C_NO_NAME\<rparr>,
             \<lparr>pstate = (), trace = [Call_release_name 7, Call_release_name GSS_C_NO_NAME,
                Call_display_status 131072 1 None 0, Call_release_buffer ''Unknown error'',
                Call_display_status 0 2 None 0, Call_release_buffer ''Unknown error'']\<rparr>)
   \<and> Name_dealloc 5 null_rejecting_provider \<lparr>raw_name = GSS_C_NO_NAME\<rparr>
        \<lparr>pstate = (), trace = [Call_release_name 7]\<rparr>
     = Some (Inr (), \<lparr>raw_name = GSS_C_NO_NAME\<rparr>, \<lparr>pstate = (), trace = [Call_release_name 7]\<rparr>)"
  by code_simp

text \<open>
  C8: \<^verbatim>\<open>compare_name\<close> returns true when both arguments are \<^verbatim>\<open>None\<close> and false
  when exactly one is; in both cases the world is unchanged, so the provider is not
  consulted, and nothing is raised.  When both are present and the provider's
  \<^verbatim>\<open>gss_compare_name\<close> succeeds, the result is whether the provider's \<^verbatim>\<open>is_equal\<close>
  is non-zero, after exactly that one provider call.
\<close>

theorem compare_name_absent_or_delegates:
  "compare_name fuel env None None w = Some (Inr True, w)
   \<and> compare_name fuel env (Some n1) None w = Some (Inr False, w)
   \<and> compare_name fuel env None (Some n2) w = Some (Inr False, w)
   \<and> (\<forall>min_stat is_equal p1.
         gss_compare_name env (raw_name n1) (raw_name n2) (pstate w)
           = ((GSS_S_COMPLETE, min_stat, is_equal), p1)
         \<longrightarrow> compare_name fuel env (Some n1) (Some n2) w
           = Some (Inr (is_equal \<noteq> 0),
               \<lparr>pstate = p1, trace = trace w @ [Call_compare_name (raw_name n1) (raw_name n2)]\<rparr>))"
  by (simp add: compare_name_def call_gss_compare_name_def)

theorem compare_name_absent_or_delegates_witness:
  "gss_compare_name sample_provider (raw_name \<lparr>raw_name = 7\<rparr>) (raw_name \<lparr>raw_name = 7\<rparr>)
       (pstate initial_world) = ((GSS_S_COMPLETE, 0, 1), ())
   \<and> compare_name 0 sample_provider (Some \<lparr>raw_name = 7\<rparr>) (Some \<lparr>raw_name = 7\<rparr>) initial_world
       = Some (Inr True, \<lparr>pstate = (), trace = [Call_compare_name 7 7]\<rparr>)
   \<and> compare_name 0 sample_provider None None initial_world = Some (Inr True, initial_world)
   \<and> compare_name 0 sample_provider (Some \<lparr>raw_name = 7\<rparr>) None initial_world
       = Some (Inr False, initial_world)"
proof -
  have p: "gss_compare_name sample_provider (raw_name \<lparr>raw_name = 7\<rparr>) (raw_name \<lparr>raw_name = 7\<rparr>)
       (pstate initial_world) = ((GSS_S_COMPLETE, 0, 1), ())"
    by code_simp
  have t: "trace initial_world = []" by (simp add: initial_world_def)
  from compare_name_absent_or_delegates [of 0 sample_provider initial_world "\<lparr>raw_name = 7\<rparr>"
      "\<lparr>raw_name = 7\<rparr>"] p t
  show ?thesis by simp
qed

text \<open>
  C9: for every handle, \<^verbatim>\<open>display_name\<close> with \<^verbatim>\<open>name_type = False\<close> passes a null
  type pointer to the provider (the call is recorded with \<open>False\<close>); when the provider
  succeeds the result has the provider's text and an absent name type, whatever the
  provider wrote, and every result it returns has an absent name type.  With
  \<^verbatim>\<open>name_type = True\<close>, when the provider succeeds and returns \<^verbatim>\<open>GSS_C_NO_OID\<close> as the
  type, \<^verbatim>\<open>display_name\<close> still returns a result, with an absent name type.
\<close>

theorem display_name_type_absent:
  "(\<forall>min_stat buf ty p1.
      gss_display_name env (raw_name n) False (pstate w) = ((GSS_S_COMPLETE, min_stat, buf, ty), p1)
      \<longrightarrow> (\<exists>w2. display_name fuel env n False w = Some (Inr \<lparr>name = buf, name_type = None\<rparr>, w2)
             \<and> trace w2 = trace w @ [Call_display_name (raw_name n) False, Call_release_buffer buf]))
   \<and> (\<forall>res w'. display_name fuel env n False w = Some (res, w')
      \<longrightarrow> (\<exists>t. trace w' = trace w @ Call_display_name (raw_name n) False # t)
        \<and> (\<forall>r. res = Inr r \<longrightarrow> name_type r = None))
   \<and> (\<forall>min_stat buf p1.
      gss_display_name env (raw_name n) True (pstate w)
        = ((GSS_S_COMPLETE, min_stat, buf, GSS_C_NO_OID), p1)
      \<longrightarrow> (\<exists>w2. display_name fuel env n True w = Some (Inr \<lparr>name = buf, name_type = None\<rparr>, w2)))"
proof -
  have a: "\<exists>w2. display_name fuel env n False w = Some (Inr \<lparr>name = buf, name_type = None\<rparr>, w2)
             \<and> trace w2 = trace w @ [Call_display_name (raw_name n) False, Call_release_buffer buf]"
    if "gss_display_name env (raw_name n) False (pstate w) = ((GSS_S_COMPLETE, min_stat, buf, ty), p1)"
    for min_stat buf ty p1
    using that
    by (simp add: display_name_def call_gss_display_name_def call_gss_release_buffer_def Let_def)
  have b: "(\<exists>t. trace w' = trace w @ Call_display_name (raw_name n) False # t)
        \<and> (\<forall>r. res = Inr r \<longrightarrow> name_type r = None)"
    if r: "display_name fuel env n False w = Some (res, w')" for res w'
  proof -
    obtain maj mn buf ty w1 where
      c: "call_gss_display_name env (raw_name n) False w = ((maj, mn, buf, ty), w1)"
      by (metis prod.exhaust)
    note t = trace_call_gss_display_name [OF c]
    show ?thesis
    proof (cases "maj = GSS_S_COMPLETE")
      case True
      with r c t show ?thesis
        by (auto simp: display_name_def call_gss_release_buffer_def Let_def)
    next
      case False
      with r c obtain e where g: "GSSError_init fuel env maj mn w1 = Some (e, w')"
        and "res = Inl e"
        by (auto simp: display_name_def split: option.splits)
      with GSSError_init_trace_prefix [OF g] t show ?thesis
        by (auto simp: prefix_def)
    qed
  qed
  have c: "\<exists>w2. display_name fuel env n True w = Some (Inr \<lparr>name = buf, name_type = None\<rparr>, w2)"
    if "gss_display_name env (raw_name n) True (pstate w)
        = ((GSS_S_COMPLETE, min_stat, buf, GSS_C_NO_OID), p1)" for min_stat buf p1
    using that
    by (simp add: display_name_def call_gss_display_name_def GSS_C_NO_OID_def Let_def)
  from a b c show ?thesis by blast
qed

theorem display_name_type_absent_witness:
  "gss_display_name sample_provider (raw_name \<lparr>raw_name = 7\<rparr>) False (pstate initial_world)
     = ((GSS_S_COMPLETE, 0, ''alice@EXAMPLE.COM'', None), ())
   \<and> display_name 0 sample_provider \<lparr>raw_name = 7\<rparr> False initial_world
     = Some (Inr \<lparr>name = ''alice@EXAMPLE.COM'', name_type = None\<rparr>,
         \<lparr>pstate = (), trace = [Call_display_name 7 False, Call_release_buffer ''alice@EXAMPLE.COM'']\<rparr>)
   \<and> gss_display_name sample_provider (raw_name \<lparr>raw_name = 8\<rparr>) True (pstate initial_world)
     = ((GSS_S_COMPLETE, 0, ''alice@EXAMPLE.COM'', GSS_C_NO_OID), ())
   \<and> name_type (projr (fst (the (display_name 0 sample_provider \<lparr>raw_name = 8\<rparr> True initial_world))))
     = None"
proof -
  have p: "gss_display_name sample_provider (raw_name \<lparr>raw_name = 7\<rparr>) False (pstate initial_world)
     = ((GSS_S_COMPLETE, 0, ''alice@EXAMPLE.COM'', None), ())"
    by code_simp
  have q: "gss_display_name sample_provider (raw_name \<lparr>raw_name = 8\<rparr>) True (pstate initial_world)
     = ((GSS_S_COMPLETE, 0, ''alice@EXAMPLE.COM'', GSS_C_NO_OID), ())"
    by code_simp
  have d: "display_name 0 sample_provider \<lparr>raw_name = 7\<rparr> False initial_world
     = Some (Inr \<lparr>name = ''alice@EXAMPLE.COM'', name_type = None\<rparr>,
         \<lparr>pstate = (), trace = [Call_display_name 7 False, Call_release_buffer ''alice@EXAMPLE.COM'']\<rparr>)"
    by code_simp
  note T = display_name_type_absent [of sample_provider _ initial_world 0]
  from T [of "\<lparr>raw_name = 7\<rparr>", THEN conjunct2, THEN conjunct1, rule_format, OF d]
    T [of "\<lparr>raw_name = 8\<rparr>", THEN conjunct2, THEN conjunct2, rule_format, OF q] p q d
  show ?thesis by auto
qed

end
